theory Spec2Isabelle
  imports Complex_Main "HOL-Library.Sublist"
begin

section \<open>Errors and strings\<close>

text \<open>
  The exceptions the embedded functions can raise.  \<open>IndexError\<close> is Python's error for
  \<^verbatim>\<open>states[0]\<close> on an empty list, \<open>TypeError\<close> the one for iterating over
  \<^verbatim>\<open>None\<close>, \<open>ValueError\<close> carries the offending text of
  \<^verbatim>\<open>parse_flag\<close> and \<^verbatim>\<open>resolve_lbs\<close>.  \<open>WaitTimeoutError\<close> stands for
  the \<^verbatim>\<open>Exception('Timed out after {} sec(s) waiting on host "{}" health for lb(s) {}')\<close>
  of \<^verbatim>\<open>wait_xx_lbs\<close> and carries the three values the message is formatted with:
  the timeout, the host string and the names of the load balancers still waited for.
\<close>

datatype error =
    IndexError
  | TypeError
  | ValueError string
  | WaitTimeoutError real string "string list"

text \<open>\<^verbatim>\<open>xs[0]\<close>: the first element, or \<open>IndexError\<close> on the empty list.\<close>

definition index0 :: "'a list \<Rightarrow> error + 'a" where
  "index0 xs = (case xs of [] \<Rightarrow> Inl IndexError | x # _ \<Rightarrow> Inr x)"

text \<open>\<^verbatim>\<open>s.startswith(p)\<close>: \<open>p\<close> is a prefix of \<open>s\<close>.\<close>

fun startswith :: "string \<Rightarrow> string \<Rightarrow> bool" where
  "startswith s [] = True"
| "startswith [] (c # p) = False"
| "startswith (a # s) (c # p) = (a = c \<and> startswith s p)"

text \<open>\<^verbatim>\<open>needle in hay\<close> on strings: \<open>needle\<close> occurs in \<open>hay\<close> as a substring.\<close>

fun str_contains :: "string \<Rightarrow> string \<Rightarrow> bool" where
  "str_contains [] needle = (needle = [])"
| "str_contains (h # hay) needle = (startswith (h # hay) needle \<or> str_contains hay needle)"

text \<open>
  \<^verbatim>\<open>s.replace(old, new)\<close> for one-character \<open>old\<close> and \<open>new\<close>, the only way the
  source calls it (\<^verbatim>\<open>replace('.', '-')\<close>).
\<close>

definition replace :: "string \<Rightarrow> char \<Rightarrow> char \<Rightarrow> string" where
  "replace s old new = map (\<lambda>c. if c = old then new else c) s"

section \<open>Health records and the two target conditions\<close>

text \<open>
  One entry of the result of \<^verbatim>\<open>lb.get_instance_health([instance.id])\<close>: the
  instance it is about and the state the load balancer reports for it.
\<close>

record instance_state =
  state_instance_id :: string
  state :: string

text \<open>
  The local function of \<^verbatim>\<open>wait_in_lbs\<close>:
  \<^verbatim>\<open>return (not states and states[0].state == 'InService')\<close>.
  Python's \<open>and\<close> evaluates its right operand only when the left one is true, that is
  only when \<open>states\<close> is empty; there \<^verbatim>\<open>states[0]\<close> raises.
\<close>

definition in_service :: "instance_state list \<Rightarrow> error + bool" where
  "in_service states =
     (if states = [] then
        (case index0 states of
           Inl e \<Rightarrow> Inl e
         | Inr s \<Rightarrow> Inr (state s = ''InService''))
      else Inr False)"

text \<open>
  The local function of \<^verbatim>\<open>wait_out_lbs\<close>:
  \<^verbatim>\<open>return (not states or states[0].state == 'OutOfService')\<close>.
\<close>

definition out_of_service :: "instance_state list \<Rightarrow> error + bool" where
  "out_of_service states =
     (if states = [] then Inr True
      else
        (case index0 states of
           Inl e \<Rightarrow> Inl e
         | Inr s \<Rightarrow> Inr (state s = ''OutOfService'')))"

section \<open>Settings and flag parsing\<close>

text \<open>
  The fields of the module's settings object \<^verbatim>\<open>ctx = Context(...)\<close> that the
  embedded functions read, and the values the module gives them.
\<close>

record Context =
  WAIT_DEFAULT_TIMEOUT_SECS :: int
  WAIT_POLL_FREQ_SECS :: int
  AWS_DISABLED_TAG :: string
  AWS_VPC_ID :: string
  AWS_GROUP_ID :: "string option"

definition ctx :: Context where
  "ctx = \<lparr>WAIT_DEFAULT_TIMEOUT_SECS = 60, WAIT_POLL_FREQ_SECS = 5,
           AWS_DISABLED_TAG = ''Disabled'', AWS_VPC_ID = ''vpc-asd'', AWS_GROUP_ID = None\<rparr>"

text \<open>\<^verbatim>\<open>s.lower()\<close>, on the letters A to Z; every other character is kept.\<close>

definition lower_char :: "char \<Rightarrow> char" where
  "lower_char c =
     (case map_of (zip ''ABCDEFGHIJKLMNOPQRSTUVWXYZ'' ''abcdefghijklmnopqrstuvwxyz'') c of
        Some l \<Rightarrow> l
      | None \<Rightarrow> c)"

definition lower :: "string \<Rightarrow> string" where
  "lower s = map lower_char s"

text \<open>
  Python's \<^verbatim>\<open>int(raw)\<close> on text, as \<open>None\<close> where it raises \<open>ValueError\<close>:
  white space around the literal is dropped, then an optional sign and at least one
  decimal digit must remain.  The theorem about \<open>parse_wait\<close> below holds for whatever
  this function accepts; only the evaluations at \<open>''1''\<close> and \<open>''0''\<close> read it.
\<close>

definition isspace :: "char \<Rightarrow> bool" where
  "isspace c = ((of_char c :: nat) \<in> {9, 10, 11, 12, 13, 32})"

definition strip :: "string \<Rightarrow> string" where
  "strip s = rev (dropWhile isspace (rev (dropWhile isspace s)))"

definition digit_value :: "char \<Rightarrow> nat option" where
  "digit_value c =
     (let n = (of_char c :: nat) in if 48 \<le> n \<and> n \<le> 57 then Some (n - 48) else None)"

fun digits_value :: "nat \<Rightarrow> string \<Rightarrow> nat option" where
  "digits_value acc [] = Some acc"
| "digits_value acc (c # cs) =
     (case digit_value c of None \<Rightarrow> None | Some d \<Rightarrow> digits_value (10 * acc + d) cs)"

definition py_int :: "string \<Rightarrow> int option" where
  "py_int raw =
     (case strip raw of
        [] \<Rightarrow> None
      | c # cs \<Rightarrow>
          if c = CHR ''-'' then
            (if cs = [] then None else map_option (\<lambda>n. - int n) (digits_value 0 cs))
          else if c = CHR ''+'' then
            (if cs = [] then None else map_option int (digits_value 0 cs))
          else map_option int (digits_value 0 (c # cs)))"

text \<open>
  \<^verbatim>\<open>parse_flag\<close>.  The tuples it tests membership in also hold \<^verbatim>\<open>True\<close>,
  \<^verbatim>\<open>1\<close>, \<^verbatim>\<open>False\<close> and \<^verbatim>\<open>0\<close>; no text equals any of them, so on
  text only the three literals of each tuple count.
\<close>

definition parse_flag :: "string \<Rightarrow> error + bool" where
  "parse_flag flag =
     (if lower flag \<in> set [''1'', ''t'', ''true''] then Inr True
      else if lower flag \<in> set [''0'', ''f'', ''false''] then Inr False
      else Inl (ValueError flag))"

text \<open>
  \<^verbatim>\<open>parse_wait\<close>: \<^verbatim>\<open>int(raw)\<close> first; only when that raises is the text read
  as a flag.
\<close>

definition parse_wait :: "Context \<Rightarrow> string \<Rightarrow> error + int" where
  "parse_wait cx raw =
     (case py_int raw of
        Some n \<Rightarrow> Inr n
      | None \<Rightarrow>
          (case parse_flag raw of
             Inl e \<Rightarrow> Inl e
           | Inr flag \<Rightarrow> if flag then Inr (WAIT_DEFAULT_TIMEOUT_SECS cx) else Inr 0))"

section \<open>The inventory\<close>

text \<open>
  An instance as the provider returns it: the fields the module reads.  \<open>tags\<close> is the
  instance's tag dictionary.  The source's field \<^verbatim>\<open>id\<close> is written
  \<open>instance_id\<close> here (\<open>id\<close> is the identity function of HOL).
\<close>

record ec2_instance =
  instance_id :: string
  private_ip_address :: string
  subnet_id :: string
  tags :: "string \<rightharpoonup> string"

text \<open>
  \<^verbatim>\<open>get_all_instances\<close> returns reservations; the module reads
  \<^verbatim>\<open>reservation.instances[0]\<close> of each.
\<close>

record reservation =
  reservation_instances :: "ec2_instance list"

text \<open>
  A load balancer: its name and its members (each known by its id), \<open>None\<close> while the
  provider reports no membership for it.  The source's fields \<^verbatim>\<open>name\<close> and
  \<^verbatim>\<open>instances\<close> are \<open>lb_name\<close> and \<open>lb_instances\<close>, and a member's
  \<^verbatim>\<open>id\<close> is \<open>info_id\<close>.
\<close>

record instance_info =
  info_id :: string

record load_balancer =
  lb_name :: string
  lb_instances :: "instance_info list option"

text \<open>
  The provider and the clock are outside the program.  Each answer may depend on how many
  queries of its kind came before (the first argument), so that health reports and clock
  readings can change from one poll to the next: \<open>get_all_instances n region filters\<close>,
  \<open>get_all_load_balancers n region\<close>, \<open>get_instance_health n lb_name ids\<close> and
  \<open>time_time n\<close>, the n-th reading of \<^verbatim>\<open>time.time()\<close>.  Clock readings are
  real numbers; the rounding of floating-point addition is not modelled.  Failures of the
  provider itself are not modelled: every query returns.
\<close>

record provider =
  get_all_instances :: "nat \<Rightarrow> string \<Rightarrow> (string \<rightharpoonup> string) \<Rightarrow> reservation list"
  get_all_load_balancers :: "nat \<Rightarrow> string \<Rightarrow> load_balancer list"
  get_instance_health :: "nat \<Rightarrow> string \<Rightarrow> string list \<Rightarrow> instance_state list"
  time_time :: "nat \<Rightarrow> real"

text \<open>
  What the wait loop leaves in the trace: a health query (the load balancer asked, the
  instance ids sent, the report that came back) and a printed line
  \<^verbatim>\<open>[host] local: waiting N sec(s) for lb(s) names\<close> (host string, poll interval,
  names of the load balancers still waited for).
\<close>

record health_query =
  query_lb :: string
  query_ids :: "string list"
  query_report :: "instance_state list"

record wait_line =
  line_host :: string
  line_secs :: int
  line_lbs :: "string list"

text \<open>
  The state the functions read and write: the four fields of \<^verbatim>\<open>api.env\<close> they
  use, and a trace of what they did to the outside: the filters of the instance queries
  sent, the number of load-balancer listings requested, the health queries sent, the
  number of clock readings taken, the lines printed and the sleeps executed (each with
  its length in seconds).
\<close>

record world =
  env_instances :: "ec2_instance list option"
  env_lbs :: "load_balancer list option"
  env_host_string :: string
  env_region_name :: string
  ec2_queries :: "(string \<rightharpoonup> string) list"
  elb_queries :: nat
  health_queries :: "health_query list"
  clock_reads :: nat
  stdout :: "wait_line list"
  sleeps :: "int list"

text \<open>
  The local function \<^verbatim>\<open>local_filter\<close> of \<^verbatim>\<open>populate_instances\<close>.  It reads
  \<open>subenets\<close> and \<open>lb\<close> of the enclosing call and the disabled tag of the settings;
  it does not read \<open>exclude_disabled\<close>.  Iterating over the members of a load balancer
  that has none (\<open>None\<close>) raises \<open>TypeError\<close>.
\<close>

definition local_filter ::
  "Context \<Rightarrow> string list option \<Rightarrow> load_balancer option \<Rightarrow> ec2_instance \<Rightarrow> error + bool" where
  "local_filter cx subenets lb i =
     (if (case subenets of None \<Rightarrow> False | Some ss \<Rightarrow> ss \<noteq> [] \<and> subnet_id i \<notin> set ss)
      then Inr False
      else if tags i (AWS_DISABLED_TAG cx) \<noteq> None then Inr False
      else
        (case lb of
           None \<Rightarrow> Inr True
         | Some l \<Rightarrow>
             (case lb_instances l of
                None \<Rightarrow> Inl TypeError
              | Some members \<Rightarrow> Inr (list_ex (\<lambda>m. instance_id i = info_id m) members))))"

text \<open>
  The filter dictionary sent to the provider.  \<^verbatim>\<open>if tags: remote_filter.update(tags)\<close>:
  updating with an empty dictionary changes nothing, so the test on \<open>tags\<close> is not
  written out.
\<close>

definition remote_filter :: "Context \<Rightarrow> (string \<rightharpoonup> string) option \<Rightarrow> (string \<rightharpoonup> string)" where
  "remote_filter cx tgs =
     (let f0 = [''vpc-id'' \<mapsto> AWS_VPC_ID cx, ''instance-state-name'' \<mapsto> ''running''];
          f1 = (case AWS_GROUP_ID cx of
                  None \<Rightarrow> f0
                | Some g \<Rightarrow> if g \<noteq> [] then f0(''instance.group-id'' \<mapsto> g) else f0)
      in case tgs of None \<Rightarrow> f1 | Some t \<Rightarrow> f1 ++ t)"

text \<open>
  The list comprehension of \<^verbatim>\<open>populate_instances\<close>: the first instance of every
  reservation that passes \<open>local_filter\<close>, in the provider's order.
\<close>

fun filter_reservations ::
  "Context \<Rightarrow> string list option \<Rightarrow> load_balancer option \<Rightarrow> reservation list
    \<Rightarrow> error + ec2_instance list" where
  "filter_reservations cx subenets lb [] = Inr []"
| "filter_reservations cx subenets lb (r # rs) =
     (case index0 (reservation_instances r) of
        Inl e \<Rightarrow> Inl e
      | Inr i \<Rightarrow>
          (case local_filter cx subenets lb i of
             Inl e \<Rightarrow> Inl e
           | Inr keep \<Rightarrow>
               (case filter_reservations cx subenets lb rs of
                  Inl e \<Rightarrow> Inl e
                | Inr rest \<Rightarrow> Inr (if keep then i # rest else rest))))"

text \<open>
  \<^verbatim>\<open>populate_instances\<close>.  \<open>query_instances\<close> is its part after the test of the
  cache: one query to the provider, whose filtered result becomes the cache.  The test
  \<^verbatim>\<open>if api.env.instances:\<close> is one of truth, so both \<open>None\<close> and the empty list
  lead to the query.
\<close>

definition query_instances ::
  "provider \<Rightarrow> Context \<Rightarrow> (string \<rightharpoonup> string) option \<Rightarrow> load_balancer option
    \<Rightarrow> string list option \<Rightarrow> world \<Rightarrow> (error + ec2_instance list) \<times> world" where
  "query_instances P cx tgs lb subenets w =
     (let rf = remote_filter cx tgs;
          found = get_all_instances P (length (ec2_queries w)) (env_region_name w) rf;
          w1 = w\<lparr>ec2_queries := ec2_queries w @ [rf]\<rparr>
      in case filter_reservations cx subenets lb found of
           Inl e \<Rightarrow> (Inl e, w1)
         | Inr insts \<Rightarrow> (Inr insts, w1\<lparr>env_instances := Some insts\<rparr>))"

definition populate_instances ::
  "provider \<Rightarrow> Context \<Rightarrow> (string \<rightharpoonup> string) option \<Rightarrow> load_balancer option \<Rightarrow> bool
    \<Rightarrow> string list option \<Rightarrow> world \<Rightarrow> (error + ec2_instance list) \<times> world" where
  "populate_instances P cx tgs lb exclude_disabled subenets w =
     (case env_instances w of
        None \<Rightarrow> query_instances P cx tgs lb subenets w
      | Some [] \<Rightarrow> query_instances P cx tgs lb subenets w
      | Some (i # rest) \<Rightarrow> (Inr (i # rest), w))"

text \<open>
  \<^verbatim>\<open>populate_lbs\<close>: the test is \<^verbatim>\<open>api.env.lbs is not None\<close>.
\<close>

definition populate_lbs :: "provider \<Rightarrow> world \<Rightarrow> load_balancer list \<times> world" where
  "populate_lbs P w =
     (case env_lbs w of
        Some ls \<Rightarrow> (ls, w)
      | None \<Rightarrow>
          (let ls = filter (\<lambda>lb. lb_instances lb \<noteq> None)
                      (get_all_load_balancers P (elb_queries w) (env_region_name w))
           in (ls, w\<lparr>elb_queries := Suc (elb_queries w), env_lbs := Some ls\<rparr>)))"

text \<open>
  \<^verbatim>\<open>instance_lbs\<close>: the cached load balancers that have the instance as a member.
\<close>

fun filter_lbs :: "string \<Rightarrow> load_balancer list \<Rightarrow> error + load_balancer list" where
  "filter_lbs iid [] = Inr []"
| "filter_lbs iid (lb # rest) =
     (case lb_instances lb of
        None \<Rightarrow> Inl TypeError
      | Some members \<Rightarrow>
          (case filter_lbs iid rest of
             Inl e \<Rightarrow> Inl e
           | Inr keep \<Rightarrow> Inr (if list_ex (\<lambda>m. iid = info_id m) members then lb # keep else keep)))"

definition instance_lbs :: "ec2_instance \<Rightarrow> world \<Rightarrow> error + load_balancer list" where
  "instance_lbs i w =
     (case env_lbs w of
        None \<Rightarrow> Inl TypeError
      | Some ls \<Rightarrow> filter_lbs (instance_id i) ls)"

text \<open>
  \<^verbatim>\<open>current_instance\<close>.  \<open>scan_instances\<close> is its \<^verbatim>\<open>for ... else\<close> loop
  over the cached instances: the three tests in the source's order, \<open>None\<close> when the loop
  ends without a \<^verbatim>\<open>break\<close>.
\<close>

fun scan_instances :: "string \<Rightarrow> ec2_instance list \<Rightarrow> ec2_instance option" where
  "scan_instances host_string [] = None"
| "scan_instances host_string (i # rest) =
     (if (case tags i ''Name'' of None \<Rightarrow> False | Some n \<Rightarrow> startswith n host_string)
      then Some i
      else if startswith (private_ip_address i) host_string then Some i
      else if str_contains host_string (replace (private_ip_address i) CHR ''.'' CHR ''-'')
      then Some i
      else scan_instances host_string rest)"

definition current_instance ::
  "provider \<Rightarrow> Context \<Rightarrow> world \<Rightarrow> (error + ec2_instance option) \<times> world" where
  "current_instance P cx w =
     (case populate_instances P cx None None True None w of
        (Inl e, w1) \<Rightarrow> (Inl e, w1)
      | (Inr _, w1) \<Rightarrow>
          (case populate_lbs P w1 of
             (_, w2) \<Rightarrow>
               (case env_instances w2 of
                  None \<Rightarrow> (Inl TypeError, w2)
                | Some insts \<Rightarrow> (Inr (scan_instances (env_host_string w2) insts), w2))))"

text \<open>
  One poll cycle of \<^verbatim>\<open>wait_xx_lbs\<close>, the comprehension
  \<^verbatim>\<open>[lb for lb in lbs if not health(lb.get_instance_health([instance.id]))]\<close>:
  one health query per load balancer of the list, in order; an error of \<open>health\<close>
  ends the cycle at once.
\<close>

fun poll ::
  "provider \<Rightarrow> (instance_state list \<Rightarrow> error + bool) \<Rightarrow> string \<Rightarrow> load_balancer list \<Rightarrow> world
    \<Rightarrow> (error + load_balancer list) \<times> world" where
  "poll P health iid [] w = (Inr [], w)"
| "poll P health iid (lb # rest) w =
     (let states = get_instance_health P (length (health_queries w)) (lb_name lb) [iid];
          w1 = w\<lparr>health_queries := health_queries w @
                 [\<lparr>query_lb = lb_name lb, query_ids = [iid], query_report = states\<rparr>]\<rparr>
      in case health states of
           Inl e \<Rightarrow> (Inl e, w1)
         | Inr ok \<Rightarrow>
             (case poll P health iid rest w1 of
                (Inl e, w2) \<Rightarrow> (Inl e, w2)
              | (Inr keep, w2) \<Rightarrow> (Inr (if ok then keep else lb # keep), w2)))"

text \<open>
  The \<^verbatim>\<open>while True\<close> loop of \<^verbatim>\<open>wait_xx_lbs\<close>.  The loop ends only when the
  list is empty or the clock has passed \<open>et\<close>, so it is given fuel: one unit per cycle,
  and \<open>None\<close> when the fuel is used up before the loop has ended.
\<close>

fun wait_loop ::
  "nat \<Rightarrow> provider \<Rightarrow> Context \<Rightarrow> real \<Rightarrow> (instance_state list \<Rightarrow> error + bool)
    \<Rightarrow> ec2_instance \<Rightarrow> real \<Rightarrow> load_balancer list \<Rightarrow> world
    \<Rightarrow> (error + unit) option \<times> world" where
  "wait_loop 0 P cx timeout health i et lbs w = (None, w)"
| "wait_loop (Suc fuel) P cx timeout health i et lbs w =
     (case poll P health (instance_id i) lbs w of
        (Inl e, w1) \<Rightarrow> (Some (Inl e), w1)
      | (Inr keep, w1) \<Rightarrow>
          if keep = [] then (Some (Inr ()), w1)
          else
            (let now = time_time P (clock_reads w1);
                 w2 = w1\<lparr>clock_reads := Suc (clock_reads w1)\<rparr>
             in if now > et
                then (Some (Inl (WaitTimeoutError timeout (env_host_string w2)
                                   (map lb_name keep))), w2)
                else wait_loop fuel P cx timeout health i et keep
                       (w2\<lparr>stdout := stdout w2 @
                              [\<lparr>line_host = env_host_string w2,
                                line_secs = WAIT_POLL_FREQ_SECS cx,
                                line_lbs = map lb_name keep\<rparr>],
                            sleeps := sleeps w2 @ [WAIT_POLL_FREQ_SECS cx]\<rparr>)))"

text \<open>
  \<^verbatim>\<open>wait_xx_lbs\<close>, and its two callers with their target conditions.
\<close>

definition wait_xx_lbs ::
  "nat \<Rightarrow> provider \<Rightarrow> Context \<Rightarrow> real \<Rightarrow> (instance_state list \<Rightarrow> error + bool) \<Rightarrow> world
    \<Rightarrow> (error + unit) option \<times> world" where
  "wait_xx_lbs fuel P cx timeout health w =
     (case current_instance P cx w of
        (Inl e, w1) \<Rightarrow> (Some (Inl e), w1)
      | (Inr None, w1) \<Rightarrow> (Some (Inr ()), w1)
      | (Inr (Some i), w1) \<Rightarrow>
          (case instance_lbs i w1 of
             Inl e \<Rightarrow> (Some (Inl e), w1)
           | Inr lbs \<Rightarrow>
               (let et = time_time P (clock_reads w1) + timeout;
                    w2 = w1\<lparr>clock_reads := Suc (clock_reads w1)\<rparr>
                in wait_loop fuel P cx timeout health i et lbs w2)))"

definition wait_in_lbs ::
  "nat \<Rightarrow> provider \<Rightarrow> Context \<Rightarrow> real \<Rightarrow> world \<Rightarrow> (error + unit) option \<times> world" where
  "wait_in_lbs fuel P cx timeout w = wait_xx_lbs fuel P cx timeout in_service w"

definition wait_out_lbs ::
  "nat \<Rightarrow> provider \<Rightarrow> Context \<Rightarrow> real \<Rightarrow> world \<Rightarrow> (error + unit) option \<times> world" where
  "wait_out_lbs fuel P cx timeout w = wait_xx_lbs fuel P cx timeout out_of_service w"

section \<open>Matching a host string, in words\<close>

text \<open>
  What \<open>scan_instances\<close> tests of one instance, in the library's terms: the host string
  is a prefix of the instance's \<open>Name\<close> tag, or a prefix of its private address, or
  contains the private address written with dashes.
\<close>

definition host_matches :: "string \<Rightarrow> ec2_instance \<Rightarrow> bool" where
  "host_matches host_string i =
     ((case tags i ''Name'' of None \<Rightarrow> False | Some n \<Rightarrow> prefix host_string n)
      \<or> prefix host_string (private_ip_address i)
      \<or> sublist (replace (private_ip_address i) CHR ''.'' CHR ''-'') host_string)"

text \<open>
  The same with the two prefix tests the other way round (the \<open>Name\<close> tag, or the
  private address, is a prefix of the host string).
\<close>

definition claimed_host_matches :: "string \<Rightarrow> ec2_instance \<Rightarrow> bool" where
  "claimed_host_matches host_string i =
     ((case tags i ''Name'' of None \<Rightarrow> False | Some n \<Rightarrow> prefix n host_string)
      \<or> prefix (private_ip_address i) host_string
      \<or> sublist (replace (private_ip_address i) CHR ''.'' CHR ''-'') host_string)"

section \<open>Example inventories\<close>

text \<open>
  Three instances, a world in which nothing is cached yet, a world with both caches
  filled, and a provider whose inventory never changes.
\<close>

definition inst_web :: ec2_instance where
  "inst_web = \<lparr>instance_id = ''i-1a5c0f47'', private_ip_address = ''10.3.104.23'',
                subnet_id = ''subnet-1'', tags = [''Name'' \<mapsto> ''web-1'']\<rparr>"

definition inst_db :: ec2_instance where
  "inst_db = \<lparr>instance_id = ''i-2b6d1e58'', private_ip_address = ''10.3.104.56'',
               subnet_id = ''subnet-2'', tags = Map.empty\<rparr>"

definition inst_disabled :: ec2_instance where
  "inst_disabled = \<lparr>instance_id = ''i-3c7e2f69'', private_ip_address = ''10.3.104.77'',
               subnet_id = ''subnet-1'', tags = [''Disabled'' \<mapsto> ''yes'']\<rparr>"

definition fresh_world :: "string \<Rightarrow> world" where
  "fresh_world host =
     \<lparr>env_instances = None, env_lbs = None, env_host_string = host,
      env_region_name = ''us-west-1'', ec2_queries = [], elb_queries = 0,
      health_queries = [], clock_reads = 0, stdout = [], sleeps = []\<rparr>"

definition fixed_provider ::
  "ec2_instance list \<Rightarrow> load_balancer list \<Rightarrow> (nat \<Rightarrow> string \<Rightarrow> instance_state list)
    \<Rightarrow> (nat \<Rightarrow> real) \<Rightarrow> provider" where
  "fixed_provider insts lbs health clock =
     \<lparr>get_all_instances = (\<lambda>_ _ _. map (\<lambda>i. \<lparr>reservation_instances = [i]\<rparr>) insts),
      get_all_load_balancers = (\<lambda>_ _. lbs),
      get_instance_health = (\<lambda>n name _. health n name),
      time_time = clock\<rparr>"

definition cached_world :: "string \<Rightarrow> ec2_instance list \<Rightarrow> load_balancer list \<Rightarrow> world" where
  "cached_world host insts lbs =
     (fresh_world host)\<lparr>env_instances := Some insts, env_lbs := Some lbs\<rparr>"

section \<open>Reading the trace of a wait\<close>

text \<open>
  A health query of the trace is satisfied when the target condition returned true on
  its report.  \<open>no_repoll\<close> says of a list of health queries, oldest first, that no
  satisfied query is followed by a query to the same load balancer.
\<close>

definition satisfied ::
  "(instance_state list \<Rightarrow> error + bool) \<Rightarrow> health_query \<Rightarrow> bool" where
  "satisfied health q = (health (query_report q) = Inr True)"

fun no_repoll ::
  "(instance_state list \<Rightarrow> error + bool) \<Rightarrow> health_query list
    \<Rightarrow> bool" where
  "no_repoll health [] = True"
| "no_repoll health (q # qs) =
     ((satisfied health q \<longrightarrow> query_lb q \<notin> query_lb ` set qs) \<and> no_repoll health qs)"

text \<open>
  Load balancer names are unique within a region.  \<open>unique_lb_names\<close> says so of the
  list \<open>populate_lbs\<close> will return in a world: the cached list, or the provider's next
  answer when nothing is cached yet.  The trace names a load balancer by its name, so the
  statement about the trace needs it.
\<close>

definition unique_lb_names :: "provider \<Rightarrow> world \<Rightarrow> bool" where
  "unique_lb_names P w =
     distinct (map lb_name
       (case env_lbs w of
          Some ls \<Rightarrow> ls
        | None \<Rightarrow> get_all_load_balancers P (elb_queries w) (env_region_name w)))"

text \<open>
  Two load balancers that have \<open>inst_db\<close> as a member, a one-entry health report, a
  clock that advances by a second per reading, a clock that is set back by ten seconds
  after its first reading, and health answers under which \<open>lb-a\<close> is out of service at
  once and \<open>lb-b\<close> from the third health query on.
\<close>

definition lb_a :: load_balancer where
  "lb_a = \<lparr>lb_name = ''lb-a'', lb_instances = Some [\<lparr>info_id = ''i-2b6d1e58''\<rparr>]\<rparr>"

definition lb_b :: load_balancer where
  "lb_b = \<lparr>lb_name = ''lb-b'',
            lb_instances = Some [\<lparr>info_id = ''i-1a5c0f47''\<rparr>, \<lparr>info_id = ''i-2b6d1e58''\<rparr>]\<rparr>"

definition report :: "string \<Rightarrow> instance_state list" where
  "report s = [\<lparr>state_instance_id = ''i-2b6d1e58'', state = s\<rparr>]"

definition ticking_clock :: "nat \<Rightarrow> real" where
  "ticking_clock n = 100 + real n"

definition set_back_clock :: "nat \<Rightarrow> real" where
  "set_back_clock n = (if n = 0 then 100 else 90 + real n)"

definition draining_health :: "nat \<Rightarrow> string \<Rightarrow> instance_state list" where
  "draining_health n name =
     (if name = ''lb-a'' then report ''OutOfService''
      else if n < 2 then report ''InService''
      else report ''OutOfService'')"

section \<open>Properties of the target conditions\<close>

lemma startswith_prefix: "startswith s p = prefix p s"
  by (induction s p rule: startswith.induct) auto

lemma str_contains_sublist: "str_contains hay needle = sublist needle hay"
  by (induction hay) (auto simp: startswith_prefix sublist_Cons_right)

text \<open>
  C1 (the code at the input where it departs from the claim).  A report whose first and
  only entry is \<open>InService\<close> does not satisfy \<open>in_service\<close> as the source writes it:
  the left operand \<^verbatim>\<open>not states\<close> is false for every non-empty report.
\<close>

theorem in_service_rejects_InService:
  "in_service [\<lparr>state_instance_id = ''i-1a5c0f47'', state = ''InService''\<rparr>] = Inr False"
  by (simp add: in_service_def)

text \<open>
  C2 (the code at the input where it departs from the claim).  On the empty report
  \<open>out_of_service\<close> is satisfied, but \<open>in_service\<close> does not return false: it reads
  \<^verbatim>\<open>states[0]\<close> and raises \<open>IndexError\<close>.
\<close>

theorem in_service_empty_raises:
  "in_service [] = Inl IndexError \<and> out_of_service [] = Inr True"
  by (simp add: in_service_def out_of_service_def index0_def)

text \<open>
  C7.  For every health report, \<open>out_of_service\<close> returns without error, and it is
  satisfied exactly when the report is empty or its first entry's state is
  \<open>OutOfService\<close>.
\<close>

theorem out_of_service_iff:
  "out_of_service states =
     Inr (states = [] \<or> (\<exists>s rest. states = s # rest \<and> state s = ''OutOfService''))"
  by (cases states) (simp_all add: out_of_service_def index0_def)

theorem out_of_service_iff_witness:
  "out_of_service [] = Inr True
   \<and> out_of_service [\<lparr>state_instance_id = ''i-1'', state = ''OutOfService''\<rparr>,
        \<lparr>state_instance_id = ''i-1'', state = ''InService''\<rparr>] = Inr True
   \<and> out_of_service [\<lparr>state_instance_id = ''i-1'', state = ''InService''\<rparr>] = Inr False"
  using out_of_service_iff [of "[]"]
    out_of_service_iff [of "[\<lparr>state_instance_id = ''i-1'', state = ''OutOfService''\<rparr>,
        \<lparr>state_instance_id = ''i-1'', state = ''InService''\<rparr>]"]
    out_of_service_iff [of "[\<lparr>state_instance_id = ''i-1'', state = ''InService''\<rparr>]"]
  by simp

section \<open>Properties of flag parsing\<close>

lemmas py_int_eval = py_int_def strip_def isspace_def digit_value_def

text \<open>
  C10.  \<open>parse_wait\<close> returns the integer whenever the text parses as one; otherwise the
  default timeout of the settings (60 in the module's own settings) for a true literal,
  0 for a false literal, and \<open>ValueError\<close> for every other text.
\<close>

theorem parse_wait_cases:
  "parse_wait cx raw =
     (case py_int raw of
        Some n \<Rightarrow> Inr n
      | None \<Rightarrow>
          if lower raw \<in> {''1'', ''t'', ''true''} then Inr (WAIT_DEFAULT_TIMEOUT_SECS cx)
          else if lower raw \<in> {''0'', ''f'', ''false''} then Inr 0
          else Inl (ValueError raw))
   \<and> WAIT_DEFAULT_TIMEOUT_SECS ctx = 60"
  by (simp add: parse_wait_def parse_flag_def ctx_def split: option.splits)

text \<open>
  The numerals \<open>''1''\<close> and \<open>''0''\<close> are second counts (1 and 0, not 60 and 0), the
  letter forms are flags in either case, and other text is refused.
\<close>

theorem parse_wait_cases_witness:
  "parse_wait ctx ''1'' = Inr 1
   \<and> parse_wait ctx ''0'' = Inr 0
   \<and> parse_wait ctx '' 90 '' = Inr 90
   \<and> parse_wait ctx ''t'' = Inr 60
   \<and> parse_wait ctx ''TRUE'' = Inr 60
   \<and> parse_wait ctx ''False'' = Inr 0
   \<and> parse_wait ctx ''maybe'' = Inl (ValueError ''maybe'')"
  using parse_wait_cases [of ctx "''1''"] parse_wait_cases [of ctx "''0''"]
    parse_wait_cases [of ctx "'' 90 ''"] parse_wait_cases [of ctx "''t''"]
    parse_wait_cases [of ctx "''TRUE''"] parse_wait_cases [of ctx "''False''"]
    parse_wait_cases [of ctx "''maybe''"]
  by (simp add: py_int_eval lower_def lower_char_def)

section \<open>Properties of the inventory\<close>

lemmas world_eval = fresh_world_def cached_world_def fixed_provider_def inst_web_def inst_db_def
  inst_disabled_def ctx_def

lemmas inventory_eval = populate_instances_def query_instances_def populate_lbs_def
  current_instance_def local_filter_def remote_filter_def index0_def replace_def

lemma scan_instances_find: "scan_instances hs insts = find (host_matches hs) insts"
  by (induction insts)
    (auto simp: host_matches_def startswith_prefix str_contains_sublist split: option.splits)

lemma populate_instances_cache:
  assumes "populate_instances P cx tgs lb ex sub w = (Inr r, w')"
  shows "env_instances w' = Some r \<and> env_host_string w' = env_host_string w"
  using assms
  by (auto simp: populate_instances_def query_instances_def Let_def
      split: option.splits list.splits sum.splits)

lemma populate_lbs_frame:
  assumes "populate_lbs P w = (r, w')"
  shows "env_instances w' = env_instances w \<and> env_host_string w' = env_host_string w"
  using assms by (auto simp: populate_lbs_def Let_def split: option.splits)

text \<open>
  C3, as amended.  When \<open>current_instance\<close> returns, the instance cache is filled and
  the result is the first cached instance that the host string matches: the host string
  is a prefix of its \<open>Name\<close> tag or of its private address, or contains its private
  address written with dashes; the result is \<open>None\<close> when no cached instance matches.
\<close>

theorem current_instance_first_match:
  assumes "current_instance P cx w = (Inr r, w')"
  shows "\<exists>insts. env_instances w' = Some insts
           \<and> r = find (host_matches (env_host_string w)) insts"
proof -
  obtain r1 w1 where p1: "populate_instances P cx None None True None w = (r1, w1)"
    by (cases "populate_instances P cx None None True None w")
  obtain ls w2 where p2: "populate_lbs P w1 = (ls, w2)"
    by (cases "populate_lbs P w1")
  from assms p1 obtain insts0 where r1: "r1 = Inr insts0"
    by (cases r1) (auto simp: current_instance_def)
  from populate_instances_cache [OF p1 [unfolded r1]] populate_lbs_frame [OF p2]
  have c: "env_instances w2 = Some insts0" and h: "env_host_string w2 = env_host_string w"
    by simp_all
  from assms p1 p2 r1 c h have "w' = w2" and "r = scan_instances (env_host_string w) insts0"
    by (auto simp: current_instance_def)
  with c show ?thesis by (simp add: scan_instances_find)
qed

theorem current_instance_first_match_witness:
  "current_instance (fixed_provider [] [] (\<lambda>_ _. []) (\<lambda>_. 0)) ctx
       (cached_world ''web'' [inst_db, inst_web] [])
     = (Inr (Some inst_web), cached_world ''web'' [inst_db, inst_web] [])
   \<and> find (host_matches ''web'') [inst_db, inst_web] = Some inst_web"
  using current_instance_first_match [of "fixed_provider [] [] (\<lambda>_ _. []) (\<lambda>_. 0)" ctx
      "cached_world ''web'' [inst_db, inst_web] []"]
  by (simp add: world_eval inventory_eval host_matches_def)

text \<open>
  C3 as stated fails.  For the host string \<open>web-1.example.com\<close> the instance named
  \<open>web-1\<close> is a match in the claim's reading (its \<open>Name\<close> tag is a prefix of the host
  string), but \<open>current_instance\<close> returns \<open>None\<close>.
\<close>

theorem current_instance_prefix_direction:
  "fst (current_instance (fixed_provider [] [] (\<lambda>_ _. []) (\<lambda>_. 0)) ctx
       (cached_world ''web-1.example.com'' [inst_db, inst_web] [])) = Inr None
   \<and> find (claimed_host_matches ''web-1.example.com'') [inst_db, inst_web] = Some inst_web"
  by (simp add: world_eval inventory_eval claimed_host_matches_def
      startswith_prefix [symmetric] str_contains_sublist [symmetric])

text \<open>
  C5 (the code at the input where it departs from the claim).  Called with
  \<open>exclude_disabled = False\<close> and no other filter, \<open>populate_instances\<close> still drops
  the instance that carries the disabled tag.
\<close>

theorem populate_instances_ignores_exclude_disabled:
  "fst (populate_instances (fixed_provider [inst_disabled, inst_web] [] (\<lambda>_ _. []) (\<lambda>_. 0)) ctx
          None None False None (fresh_world ''10.3.104.77'')) = Inr [inst_web]"
  by (simp add: world_eval inventory_eval)

text \<open>
  C6 (the code at the input where it departs from the claim).  When the first call caches
  the empty list, the second call queries the provider again.
\<close>

theorem populate_instances_requeries_empty_cache:
  "env_instances (snd (populate_instances (fixed_provider [] [] (\<lambda>_ _. []) (\<lambda>_. 0)) ctx
          None None True None (fresh_world ''10.3.104.56''))) = Some []
   \<and> length (ec2_queries (snd (populate_instances (fixed_provider [] [] (\<lambda>_ _. []) (\<lambda>_. 0)) ctx
          None None True None (fresh_world ''10.3.104.56'')))) = 1
   \<and> length (ec2_queries (snd (populate_instances (fixed_provider [] [] (\<lambda>_ _. []) (\<lambda>_. 0)) ctx
          None None True None
          (snd (populate_instances (fixed_provider [] [] (\<lambda>_ _. []) (\<lambda>_. 0)) ctx
             None None True None (fresh_world ''10.3.104.56'')))))) = 2"
  by (simp add: world_eval inventory_eval)

text \<open>
  X1.  \<open>populate_lbs\<close> is memoized on every cached list, the empty one included: with a
  cache it returns the cache and leaves the world as it was (no listing is requested).
\<close>

theorem populate_lbs_memoized:
  assumes "env_lbs w = Some ls"
  shows "populate_lbs P w = (ls, w)"
  using assms by (simp add: populate_lbs_def)

theorem populate_lbs_memoized_witness:
  "env_lbs (cached_world ''10.3.104.56'' [] []) = Some []
   \<and> populate_lbs (fixed_provider [] [lb_a] (\<lambda>_ _. []) ticking_clock)
         (cached_world ''10.3.104.56'' [] [])
       = ([], cached_world ''10.3.104.56'' [] [])"
proof -
  have c: "env_lbs (cached_world ''10.3.104.56'' [] []) = Some []"
    by (simp add: world_eval)
  from populate_lbs_memoized [OF c, of "fixed_provider [] [lb_a] (\<lambda>_ _. []) ticking_clock"] c
  show ?thesis by simp
qed

text \<open>
  X2.  \<open>populate_instances\<close> is memoized on every non-empty cached list: it returns the
  cache, whatever its arguments, and leaves the world as it was (no query is sent).
\<close>

theorem populate_instances_memoized_nonempty:
  assumes "env_instances w = Some (i # rest)"
  shows "populate_instances P cx tgs lb exclude_disabled subenets w = (Inr (i # rest), w)"
  using assms by (simp add: populate_instances_def)

theorem populate_instances_memoized_nonempty_witness:
  "env_instances (cached_world ''10.3.104.56'' [inst_db] []) = Some [inst_db]
   \<and> populate_instances (fixed_provider [inst_web] [] (\<lambda>_ _. []) ticking_clock) ctx
         None None True None (cached_world ''10.3.104.56'' [inst_db] [])
       = (Inr [inst_db], cached_world ''10.3.104.56'' [inst_db] [])"
proof -
  have c: "env_instances (cached_world ''10.3.104.56'' [inst_db] []) = Some [inst_db]"
    by (simp add: world_eval)
  from populate_instances_memoized_nonempty [OF c,
      of "fixed_provider [inst_web] [] (\<lambda>_ _. []) ticking_clock" ctx None None True None] c
  show ?thesis by simp
qed

lemma filter_reservations_disabled:
  "filter_reservations cx subenets lb rs = Inr insts \<Longrightarrow> i \<in> set insts
     \<Longrightarrow> tags i (AWS_DISABLED_TAG cx) = None"
proof (induction rs arbitrary: insts)
  case Nil
  then show ?case by simp
next
  case (Cons r rs)
  then show ?case
    by (auto simp: local_filter_def split: sum.splits if_splits)
qed

text \<open>
  X3.  No instance that a query of \<open>populate_instances\<close> keeps carries the disabled
  tag, whatever the tag, subnet and load-balancer filters are.
\<close>

theorem query_instances_drops_disabled:
  assumes "query_instances P cx tgs lb subenets w = (Inr insts, w')"
    and "i \<in> set insts"
  shows "tags i (AWS_DISABLED_TAG cx) = None"
  using assms
  by (auto simp: query_instances_def Let_def split: sum.splits
      dest: filter_reservations_disabled)

theorem query_instances_drops_disabled_witness:
  "query_instances (fixed_provider [inst_disabled, inst_web] [] (\<lambda>_ _. []) ticking_clock) ctx
       None None None (fresh_world ''10.3.104.77'')
     = (Inr [inst_web],
        (fresh_world ''10.3.104.77'')
          \<lparr>env_instances := Some [inst_web], ec2_queries := [remote_filter ctx None]\<rparr>)
   \<and> tags inst_web (AWS_DISABLED_TAG ctx) = None"
proof -
  have q: "query_instances (fixed_provider [inst_disabled, inst_web] [] (\<lambda>_ _. []) ticking_clock)
       ctx None None None (fresh_world ''10.3.104.77'')
     = (Inr [inst_web],
        (fresh_world ''10.3.104.77'')
          \<lparr>env_instances := Some [inst_web], ec2_queries := [remote_filter ctx None]\<rparr>)"
    by (simp add: world_eval inventory_eval)
  have m: "inst_web \<in> set [inst_web]"
    by simp
  from query_instances_drops_disabled [OF q m] q
  show ?thesis by simp
qed

section \<open>Properties of the wait loop\<close>

lemmas wait_eval = wait_in_lbs_def wait_out_lbs_def wait_xx_lbs_def instance_lbs_def
  in_service_def out_of_service_def lb_a_def lb_b_def report_def draining_health_def
  ticking_clock_def set_back_clock_def

lemma populate_instances_frame:
  assumes "populate_instances P cx tgs lb ex sub w = (r, w')"
  shows "health_queries w' = health_queries w \<and> sleeps w' = sleeps w
     \<and> clock_reads w' = clock_reads w \<and> stdout w' = stdout w
     \<and> env_lbs w' = env_lbs w \<and> elb_queries w' = elb_queries w
     \<and> env_region_name w' = env_region_name w \<and> env_host_string w' = env_host_string w"
  using assms
  by (auto simp: populate_instances_def query_instances_def Let_def
      split: option.splits list.splits sum.splits)

lemma populate_lbs_trace:
  assumes "populate_lbs P w = (r, w')"
  shows "health_queries w' = health_queries w \<and> sleeps w' = sleeps w
     \<and> clock_reads w' = clock_reads w \<and> stdout w' = stdout w"
  using assms by (auto simp: populate_lbs_def Let_def split: option.splits)

lemma current_instance_frame:
  assumes "current_instance P cx w = (r, w')"
  shows "health_queries w' = health_queries w \<and> sleeps w' = sleeps w
     \<and> clock_reads w' = clock_reads w \<and> stdout w' = stdout w
     \<and> env_host_string w' = env_host_string w"
proof -
  obtain r1 w1 where p1: "populate_instances P cx None None True None w = (r1, w1)"
    by (cases "populate_instances P cx None None True None w")
  obtain ls w2 where p2: "populate_lbs P w1 = (ls, w2)"
    by (cases "populate_lbs P w1")
  from assms p1 p2 have "w' = w1 \<or> w' = w2"
    by (auto simp: current_instance_def split: sum.splits option.splits)
  with populate_instances_frame [OF p1] populate_lbs_trace [OF p2] populate_lbs_frame [OF p2]
  show ?thesis by auto
qed

text \<open>
  C8.  When \<open>current_instance\<close> finds no instance for the host string, both
  \<open>wait_in_lbs\<close> and \<open>wait_out_lbs\<close> return success for every timeout (and with no
  fuel at all: the loop is never entered), in the world \<open>current_instance\<close> left:
  no health query was sent, nothing slept, the clock was not read.
\<close>

theorem wait_skips_unidentified_host:
  assumes "current_instance P cx w = (Inr None, w1)"
  shows "wait_in_lbs fuel P cx timeout w = (Some (Inr ()), w1)
     \<and> wait_out_lbs fuel P cx timeout w = (Some (Inr ()), w1)
     \<and> health_queries w1 = health_queries w
     \<and> sleeps w1 = sleeps w
     \<and> clock_reads w1 = clock_reads w"
  using assms current_instance_frame [OF assms]
  by (simp add: wait_in_lbs_def wait_out_lbs_def wait_xx_lbs_def)

text \<open>
  At the host string \<open>203.0.113.9\<close>, which matches neither cached instance.
\<close>

theorem wait_skips_unidentified_host_witness:
  "current_instance (fixed_provider [] [] (\<lambda>_ _. []) ticking_clock) ctx
       (cached_world ''203.0.113.9'' [inst_db, inst_web] [lb_a, lb_b])
     = (Inr None, cached_world ''203.0.113.9'' [inst_db, inst_web] [lb_a, lb_b])
   \<and> wait_in_lbs 0 (fixed_provider [] [] (\<lambda>_ _. []) ticking_clock) ctx 0
       (cached_world ''203.0.113.9'' [inst_db, inst_web] [lb_a, lb_b])
     = (Some (Inr ()), cached_world ''203.0.113.9'' [inst_db, inst_web] [lb_a, lb_b])
   \<and> wait_out_lbs 3 (fixed_provider [] [] (\<lambda>_ _. []) ticking_clock) ctx 60
       (cached_world ''203.0.113.9'' [inst_db, inst_web] [lb_a, lb_b])
     = (Some (Inr ()), cached_world ''203.0.113.9'' [inst_db, inst_web] [lb_a, lb_b])"
proof -
  have none: "current_instance (fixed_provider [] [] (\<lambda>_ _. []) ticking_clock) ctx
       (cached_world ''203.0.113.9'' [inst_db, inst_web] [lb_a, lb_b])
     = (Inr None, cached_world ''203.0.113.9'' [inst_db, inst_web] [lb_a, lb_b])"
    by (simp add: world_eval inventory_eval)
  from wait_skips_unidentified_host [OF none, of 0 0] wait_skips_unidentified_host [OF none, of 3 60]
    none
  show ?thesis by simp
qed

lemma poll_frame:
  "poll P health iid lbs w = (r, w') \<Longrightarrow>
     sleeps w' = sleeps w \<and> clock_reads w' = clock_reads w \<and> stdout w' = stdout w
     \<and> env_host_string w' = env_host_string w"
proof (induction lbs arbitrary: w r w')
  case Nil
  then show ?case by simp
next
  case (Cons lb rest)
  let ?states = "get_instance_health P (length (health_queries w)) (lb_name lb) [iid]"
  let ?w1 = "w\<lparr>health_queries := health_queries w @
      [\<lparr>query_lb = lb_name lb, query_ids = [iid], query_report = ?states\<rparr>]\<rparr>"
  show ?case
  proof (cases "health ?states")
    case (Inl e)
    with Cons.prems show ?thesis by (auto simp: Let_def)
  next
    case (Inr ok)
    obtain r2 w2 where p: "poll P health iid rest ?w1 = (r2, w2)"
      by (cases "poll P health iid rest ?w1")
    from Cons.IH [OF p] have f: "sleeps w2 = sleeps w \<and> clock_reads w2 = clock_reads w
       \<and> stdout w2 = stdout w \<and> env_host_string w2 = env_host_string w"
      by simp
    from Cons.prems Inr p have "w' = w2"
      by (auto simp: Let_def split: sum.splits)
    with f show ?thesis by simp
  qed
qed

text \<open>
  C4, as amended.  With timeout 0, an identified instance, and a first poll cycle that
  completes (no evaluation of the target condition raises) and leaves at least one load
  balancer unsatisfied: if the clock reading at the deadline check is later than the
  reading at entry, the wait fails in its first cycle with \<open>WaitTimeoutError\<close>, naming
  the timeout 0, the host string and the unsatisfied load balancers, and no sleep has
  been executed.
\<close>

theorem wait_zero_timeout_fails_at_once:
  assumes inst: "current_instance P cx w = (Inr (Some i), w1)"
    and lbs: "instance_lbs i w1 = Inr lbs"
    and first_poll: "poll P health (instance_id i) lbs (w1\<lparr>clock_reads := Suc (clock_reads w1)\<rparr>)
                       = (Inr keep, w3)"
    and unsatisfied: "keep \<noteq> []"
    and clock: "time_time P (clock_reads w1) < time_time P (Suc (clock_reads w1))"
  shows "wait_xx_lbs (Suc fuel) P cx 0 health w
           = (Some (Inl (WaitTimeoutError 0 (env_host_string w) (map lb_name keep))),
              w3\<lparr>clock_reads := Suc (Suc (clock_reads w1))\<rparr>)
     \<and> sleeps w3 = sleeps w"
proof -
  from poll_frame [OF first_poll] current_instance_frame [OF inst]
  have f: "clock_reads w3 = Suc (clock_reads w1)" "env_host_string w3 = env_host_string w"
    "sleeps w3 = sleeps w"
    by simp_all
  with assms show ?thesis
    by (simp add: wait_xx_lbs_def Let_def)
qed

text \<open>
  At an instance that stays \<open>InService\<close> on its one load balancer, under the
  advancing clock.
\<close>

theorem wait_zero_timeout_fails_at_once_witness:
  "wait_out_lbs (Suc 0) (fixed_provider [] [] (\<lambda>_ _. report ''InService'') ticking_clock) ctx 0
       (cached_world ''10.3.104.56'' [inst_db] [lb_a])
     = (Some (Inl (WaitTimeoutError 0 ''10.3.104.56'' [''lb-a''])),
        (cached_world ''10.3.104.56'' [inst_db] [lb_a])
          \<lparr>health_queries := [\<lparr>query_lb = ''lb-a'', query_ids = [''i-2b6d1e58''],
                               query_report = report ''InService''\<rparr>],
           clock_reads := 2\<rparr>)
   \<and> sleeps (snd (wait_out_lbs (Suc 0)
         (fixed_provider [] [] (\<lambda>_ _. report ''InService'') ticking_clock) ctx 0
         (cached_world ''10.3.104.56'' [inst_db] [lb_a]))) = []"
proof -
  let ?P = "fixed_provider [] [] (\<lambda>_ _. report ''InService'') ticking_clock"
  let ?w = "cached_world ''10.3.104.56'' [inst_db] [lb_a]"
  let ?w3 = "?w\<lparr>health_queries := [\<lparr>query_lb = ''lb-a'', query_ids = [''i-2b6d1e58''],
                               query_report = report ''InService''\<rparr>],
           clock_reads := Suc 0\<rparr>"
  have h1: "current_instance ?P ctx ?w = (Inr (Some inst_db), ?w)"
    by (simp add: world_eval inventory_eval)
  have h2: "instance_lbs inst_db ?w = Inr [lb_a]"
    by (simp add: world_eval wait_eval)
  have h3: "poll ?P out_of_service (instance_id inst_db) [lb_a]
              (?w\<lparr>clock_reads := Suc (clock_reads ?w)\<rparr>) = (Inr [lb_a], ?w3)"
    by (simp add: world_eval wait_eval index0_def)
  have h4: "[lb_a] \<noteq> []"
    by simp
  have h5: "time_time ?P (clock_reads ?w) < time_time ?P (Suc (clock_reads ?w))"
    by (simp add: world_eval wait_eval)
  from wait_zero_timeout_fails_at_once [OF h1 h2 h3 h4 h5, of 0]
  show ?thesis
    by (simp add: wait_out_lbs_def world_eval lb_a_def)
qed

text \<open>
  C4 as stated fails.  The deadline test is \<^verbatim>\<open>time.time() > et\<close> with
  \<open>et\<close> the reading at entry plus 0.  Under a clock that was set back between the two
  readings the test is false: after one cycle the wait has not failed, and it has slept
  the poll interval of 5 seconds.
\<close>

theorem wait_zero_timeout_sleeps_when_clock_set_back:
  "fst (wait_out_lbs (Suc 0) (fixed_provider [] [] (\<lambda>_ _. report ''InService'') set_back_clock)
         ctx 0 (cached_world ''10.3.104.56'' [inst_db] [lb_a])) = None
   \<and> sleeps (snd (wait_out_lbs (Suc 0)
         (fixed_provider [] [] (\<lambda>_ _. report ''InService'') set_back_clock) ctx 0
         (cached_world ''10.3.104.56'' [inst_db] [lb_a]))) = [5]"
  by (simp add: world_eval inventory_eval wait_eval)

lemma no_repoll_append:
  "no_repoll health (xs @ ys) =
     (no_repoll health xs \<and> no_repoll health ys
      \<and> (\<forall>q\<in>set xs. satisfied health q \<longrightarrow> query_lb q \<notin> query_lb ` set ys))"
  by (induction xs) auto

lemma no_repoll_distinct: "distinct (map query_lb qs) \<Longrightarrow> no_repoll health qs"
  by (induction qs) auto

lemma no_repoll_split:
  "no_repoll health qs \<Longrightarrow> qs = pre @ q # post \<Longrightarrow> satisfied health q
     \<Longrightarrow> query_lb q \<notin> query_lb ` set post"
  by (simp add: no_repoll_append)

lemma subseq_distinct: "subseq xs ys \<Longrightarrow> distinct ys \<Longrightarrow> distinct xs"
  using subseqs_distinctD [of xs ys] by simp

lemma poll_trace:
  "poll P health iid lbs w = (r, w') \<Longrightarrow> distinct (map lb_name lbs) \<Longrightarrow>
     \<exists>qs. health_queries w' = health_queries w @ qs
        \<and> prefix (map query_lb qs) (map lb_name lbs)
        \<and> (\<forall>keep. r = Inr keep \<longrightarrow>
              subseq keep lbs
              \<and> (\<forall>q\<in>set qs. satisfied health q \<longrightarrow> query_lb q \<notin> lb_name ` set keep))"
proof (induction lbs arbitrary: w r w')
  case Nil
  then show ?case by auto
next
  case (Cons lb rest)
  let ?states = "get_instance_health P (length (health_queries w)) (lb_name lb) [iid]"
  let ?q = "\<lparr>query_lb = lb_name lb, query_ids = [iid], query_report = ?states\<rparr>"
  let ?w1 = "w\<lparr>health_queries := health_queries w @ [?q]\<rparr>"
  show ?case
  proof (cases "health ?states")
    case (Inl e)
    with Cons.prems have "health_queries w' = health_queries w @ [?q]" and "r = Inl e"
      by (auto simp: Let_def)
    then show ?thesis by simp
  next
    case (Inr ok)
    obtain r2 w2 where p: "poll P health iid rest ?w1 = (r2, w2)"
      by (cases "poll P health iid rest ?w1")
    from Cons.prems have d: "distinct (map lb_name rest)" and fresh: "lb_name lb \<notin> lb_name ` set rest"
      by simp_all
    from Cons.IH [OF p d] obtain qs where
      hq: "health_queries w2 = health_queries w @ ?q # qs"
      and pre: "prefix (map query_lb qs) (map lb_name rest)"
      and kept: "\<forall>keep. r2 = Inr keep \<longrightarrow>
              subseq keep rest
              \<and> (\<forall>q\<in>set qs. satisfied health q \<longrightarrow> query_lb q \<notin> lb_name ` set keep)"
      by auto
    from Cons.prems Inr p have w': "w' = w2"
      and r: "r = (case r2 of Inl e \<Rightarrow> Inl e | Inr keep \<Rightarrow> Inr (if ok then keep else lb # keep))"
      by (auto simp: Let_def split: sum.splits)
    from pre have names: "query_lb ` set qs \<subseteq> lb_name ` set rest"
      using set_mono_prefix [OF pre] by auto
    have "\<forall>keep. r = Inr keep \<longrightarrow>
              subseq keep (lb # rest)
              \<and> (\<forall>q\<in>set (?q # qs). satisfied health q \<longrightarrow> query_lb q \<notin> lb_name ` set keep)"
    proof (intro allI impI)
      fix keep
      assume k: "r = Inr keep"
      with r obtain keep2 where r2: "r2 = Inr keep2"
        and keep: "keep = (if ok then keep2 else lb # keep2)"
        by (cases r2) auto
      from kept r2 have s2: "subseq keep2 rest"
        and k2: "\<forall>q\<in>set qs. satisfied health q \<longrightarrow> query_lb q \<notin> lb_name ` set keep2"
        by simp_all
      from s2 have sub: "set keep2 \<subseteq> set rest"
        by (auto dest: list_emb_set)
      have a: "subseq keep (lb # rest)"
        using s2 keep by auto
      have b: "satisfied health ?q \<longrightarrow> query_lb ?q \<notin> lb_name ` set keep"
        using Inr keep sub fresh by (auto simp: satisfied_def)
      have other: "query_lb q \<noteq> lb_name lb" if "q \<in> set qs" for q
      proof
        assume "query_lb q = lb_name lb"
        with that have "lb_name lb \<in> query_lb ` set qs"
          by (simp add: image_iff) metis
        with names have "lb_name lb \<in> lb_name ` set rest"
          by (rule subsetD)
        with fresh show False by simp
      qed
      have c: "\<forall>q\<in>set qs. satisfied health q \<longrightarrow> query_lb q \<notin> lb_name ` set keep"
      proof (intro ballI impI)
        fix q
        assume q: "q \<in> set qs" and sat: "satisfied health q"
        from k2 q sat have "query_lb q \<notin> lb_name ` set keep2"
          by simp
        with other [OF q] keep show "query_lb q \<notin> lb_name ` set keep"
          by (cases ok) simp_all
      qed
      from a b c show "subseq keep (lb # rest)
              \<and> (\<forall>q\<in>set (?q # qs). satisfied health q \<longrightarrow> query_lb q \<notin> lb_name ` set keep)"
        by simp
    qed
    with hq pre w' show ?thesis
      by (intro exI [of _ "?q # qs"]) simp
  qed
qed


lemma wait_loop_trace:
  "wait_loop fuel P cx timeout health i et lbs w = (r, w') \<Longrightarrow> distinct (map lb_name lbs) \<Longrightarrow>
     \<exists>qs ps. health_queries w' = health_queries w @ qs \<and> stdout w' = stdout w @ ps
        \<and> query_lb ` set qs \<subseteq> lb_name ` set lbs
        \<and> no_repoll health qs
        \<and> (\<forall>p\<in>set ps. subseq (line_lbs p) (map lb_name lbs))
        \<and> sorted_wrt (\<lambda>a b. subseq (line_lbs b) (line_lbs a)) ps"
proof (induction fuel arbitrary: lbs w)
  case 0
  then show ?case by simp
next
  case (Suc fuel)
  obtain r1 w1 where p: "poll P health (instance_id i) lbs w = (r1, w1)"
    by (cases "poll P health (instance_id i) lbs w")
  from poll_trace [OF p Suc.prems(2)] obtain qs1 where
    hq1: "health_queries w1 = health_queries w @ qs1"
    and pre: "prefix (map query_lb qs1) (map lb_name lbs)"
    and kept: "\<forall>keep. r1 = Inr keep \<longrightarrow>
              subseq keep lbs
              \<and> (\<forall>q\<in>set qs1. satisfied health q \<longrightarrow> query_lb q \<notin> lb_name ` set keep)"
    by auto
  from poll_frame [OF p] have out1: "stdout w1 = stdout w"
    by simp
  from pre Suc.prems(2) have "distinct (map query_lb qs1)"
    by (auto simp: prefix_def)
  then have nr1: "no_repoll health qs1"
    by (rule no_repoll_distinct)
  from set_mono_prefix [OF pre] have names1: "query_lb ` set qs1 \<subseteq> lb_name ` set lbs"
    by auto
  let ?w2 = "w1\<lparr>clock_reads := Suc (clock_reads w1)\<rparr>"
  let ?stop = "\<exists>qs ps. health_queries w' = health_queries w @ qs \<and> stdout w' = stdout w @ ps
        \<and> query_lb ` set qs \<subseteq> lb_name ` set lbs
        \<and> no_repoll health qs
        \<and> (\<forall>p\<in>set ps. subseq (line_lbs p) (map lb_name lbs))
        \<and> sorted_wrt (\<lambda>a b. subseq (line_lbs b) (line_lbs a)) ps"
  have stop: "health_queries w' = health_queries w1 \<Longrightarrow> stdout w' = stdout w1 \<Longrightarrow> ?stop"
    using hq1 out1 nr1 names1 by (intro exI [of _ qs1] exI [of _ "[]"]) simp
  show ?case
  proof (cases r1)
    case (Inl e)
    with Suc.prems(1) p have "w' = w1" by simp
    then show ?thesis using stop by simp
  next
    case (Inr keep)
    show ?thesis
    proof (cases "keep = [] \<or> time_time P (clock_reads w1) > et")
      case True
      with Suc.prems(1) p Inr have "w' = w1 \<or> w' = ?w2"
        by (auto simp: Let_def split: if_splits)
      then show ?thesis using stop by auto
    next
      case False
      let ?line = "\<lparr>line_host = env_host_string ?w2, line_secs = WAIT_POLL_FREQ_SECS cx,
                     line_lbs = map lb_name keep\<rparr>"
      let ?w3 = "?w2\<lparr>stdout := stdout ?w2 @ [?line],
                     sleeps := sleeps ?w2 @ [WAIT_POLL_FREQ_SECS cx]\<rparr>"
      from False Suc.prems(1) p Inr
      have rec: "wait_loop fuel P cx timeout health i et keep ?w3 = (r, w')"
        by (simp add: Let_def)
      from kept Inr have sub: "subseq keep lbs"
        and gone: "\<forall>q\<in>set qs1. satisfied health q \<longrightarrow> query_lb q \<notin> lb_name ` set keep"
        by simp_all
      from sub have subn: "subseq (map lb_name keep) (map lb_name lbs)"
        by (rule subseq_map)
      from subn Suc.prems(2) have dk: "distinct (map lb_name keep)"
        by (rule subseq_distinct)
      from Suc.IH [OF rec dk] obtain qs2 ps2 where
        hq2: "health_queries w' = health_queries ?w3 @ qs2"
        and out2: "stdout w' = stdout ?w3 @ ps2"
        and names2: "query_lb ` set qs2 \<subseteq> lb_name ` set keep"
        and nr2: "no_repoll health qs2"
        and below: "\<forall>p\<in>set ps2. subseq (line_lbs p) (map lb_name keep)"
        and chain: "sorted_wrt (\<lambda>a b. subseq (line_lbs b) (line_lbs a)) ps2"
        by blast
      from sub have keep_lbs: "lb_name ` set keep \<subseteq> lb_name ` set lbs"
        by (auto dest: list_emb_set)
      have a: "health_queries w' = health_queries w @ (qs1 @ qs2)"
        using hq1 hq2 by simp
      have b: "stdout w' = stdout w @ (?line # ps2)"
        using out1 out2 by simp
      from names2 keep_lbs have names2': "query_lb ` set qs2 \<subseteq> lb_name ` set lbs"
        by (rule subset_trans)
      have c: "query_lb ` set (qs1 @ qs2) \<subseteq> lb_name ` set lbs"
        using names1 names2' by (simp add: image_Un)
      have cross: "\<forall>q\<in>set qs1. satisfied health q \<longrightarrow> query_lb q \<notin> query_lb ` set qs2"
        using gone names2 by blast
      have d: "no_repoll health (qs1 @ qs2)"
        using nr1 nr2 cross by (simp add: no_repoll_append)
      have "\<forall>p\<in>set ps2. subseq (line_lbs p) (map lb_name lbs)"
        using below subn by (blast intro: subseq_order.trans)
      with subn have e: "\<forall>p\<in>set (?line # ps2). subseq (line_lbs p) (map lb_name lbs)"
        by simp
      have f: "sorted_wrt (\<lambda>a b. subseq (line_lbs b) (line_lbs a)) (?line # ps2)"
        using below chain by simp
      show ?thesis
      proof (intro exI conjI)
        show "health_queries w' = health_queries w @ (qs1 @ qs2)" by (rule a)
        show "stdout w' = stdout w @ (?line # ps2)" by (rule b)
        show "query_lb ` set (qs1 @ qs2) \<subseteq> lb_name ` set lbs" by (rule c)
        show "no_repoll health (qs1 @ qs2)" by (rule d)
        show "\<forall>p\<in>set (?line # ps2). subseq (line_lbs p) (map lb_name lbs)" by (rule e)
        show "sorted_wrt (\<lambda>a b. subseq (line_lbs b) (line_lbs a)) (?line # ps2)" by (rule f)
      qed
    qed
  qed
qed

lemma filter_lbs_subseq: "filter_lbs iid ls = Inr keep \<Longrightarrow> subseq keep ls"
  by (induction ls arbitrary: keep) (auto split: option.splits sum.splits if_splits)

lemma populate_lbs_unique:
  assumes "populate_lbs P w = (ls, w')" and "unique_lb_names P w"
  shows "env_lbs w' = Some ls \<and> distinct (map lb_name ls)"
  using assms
  by (auto simp: populate_lbs_def unique_lb_names_def Let_def distinct_map_filter
      split: option.splits)

lemma populate_instances_unique:
  assumes "populate_instances P cx tgs lb ex sub w = (r, w')" and "unique_lb_names P w"
  shows "unique_lb_names P w'"
  using populate_instances_frame [OF assms(1)] assms(2)
  by (simp add: unique_lb_names_def split: option.splits)

lemma current_instance_lbs:
  assumes "current_instance P cx w = (Inr r, w')" and "unique_lb_names P w"
  shows "\<exists>ls. env_lbs w' = Some ls \<and> distinct (map lb_name ls)"
proof -
  obtain r1 w1 where p1: "populate_instances P cx None None True None w = (r1, w1)"
    by (cases "populate_instances P cx None None True None w")
  obtain ls w2 where p2: "populate_lbs P w1 = (ls, w2)"
    by (cases "populate_lbs P w1")
  from assms(1) p1 p2 have "w' = w2"
    by (auto simp: current_instance_def split: sum.splits option.splits)
  with populate_lbs_unique [OF p2 populate_instances_unique [OF p1 assms(2)]]
  show ?thesis by simp
qed

text \<open>
  C9.  In every wait invocation on load balancers with unique names, the health queries
  \<open>qs\<close> it sends and the lines \<open>ps\<close> it prints are such that: no query whose report
  satisfied the target condition is followed by a query to the same load balancer; and
  the load balancers still waited for, as printed before each sleep, form a chain in which
  each list is a subsequence of the one before.
\<close>

theorem wait_never_repolls:
  assumes run: "wait_xx_lbs fuel P cx timeout health w = (r, w')"
    and unique: "unique_lb_names P w"
  shows "\<exists>qs ps. health_queries w' = health_queries w @ qs \<and> stdout w' = stdout w @ ps
           \<and> (\<forall>pre q post. qs = pre @ q # post \<and> health (query_report q) = Inr True
                  \<longrightarrow> query_lb q \<notin> query_lb ` set post)
           \<and> sorted_wrt (\<lambda>a b. subseq (line_lbs b) (line_lbs a)) ps"
proof -
  obtain r1 w1 where ci: "current_instance P cx w = (r1, w1)"
    by (cases "current_instance P cx w")
  from current_instance_frame [OF ci]
  have same: "health_queries w1 = health_queries w" "stdout w1 = stdout w"
    by simp_all
  let ?w2 = "w1\<lparr>clock_reads := Suc (clock_reads w1)\<rparr>"
  have "w' = w1 \<or> (\<exists>i lbs et. r1 = Inr (Some i) \<and> instance_lbs i w1 = Inr lbs
          \<and> wait_loop fuel P cx timeout health i et lbs ?w2 = (r, w'))"
    using run ci
    by (auto simp: wait_xx_lbs_def Let_def split: sum.splits option.splits)
  then show ?thesis
  proof
    assume "w' = w1"
    with same have "health_queries w' = health_queries w @ []" and "stdout w' = stdout w @ []"
      by simp_all
    then show ?thesis by (intro exI [of _ "[]"] conjI) simp_all
  next
    assume "\<exists>i lbs et. r1 = Inr (Some i) \<and> instance_lbs i w1 = Inr lbs
          \<and> wait_loop fuel P cx timeout health i et lbs ?w2 = (r, w')"
    then obtain i lbs et where r1: "r1 = Inr (Some i)"
      and il: "instance_lbs i w1 = Inr lbs"
      and loop: "wait_loop fuel P cx timeout health i et lbs ?w2 = (r, w')"
      by blast
    from current_instance_lbs [OF ci [unfolded r1] unique] obtain ls where
      ls: "env_lbs w1 = Some ls" and d: "distinct (map lb_name ls)"
      by blast
    from il ls have "subseq lbs ls"
      by (simp add: instance_lbs_def filter_lbs_subseq)
    then have "subseq (map lb_name lbs) (map lb_name ls)"
      by (rule subseq_map)
    from this d have dl: "distinct (map lb_name lbs)"
      by (rule subseq_distinct)
    from wait_loop_trace [OF loop dl] obtain qs ps where
      hq: "health_queries w' = health_queries ?w2 @ qs"
      and out: "stdout w' = stdout ?w2 @ ps"
      and nr: "no_repoll health qs"
      and chain: "sorted_wrt (\<lambda>a b. subseq (line_lbs b) (line_lbs a)) ps"
      by blast
    show ?thesis
    proof (intro exI conjI allI impI)
      show "health_queries w' = health_queries w @ qs" using hq same by simp
      show "stdout w' = stdout w @ ps" using out same by simp
      show "sorted_wrt (\<lambda>a b. subseq (line_lbs b) (line_lbs a)) ps" by (rule chain)
    next
      fix pre q post
      assume "qs = pre @ q # post \<and> health (query_report q) = Inr True"
      then show "query_lb q \<notin> query_lb ` set post"
        using no_repoll_split [OF nr, of pre q post] by (simp add: satisfied_def)
    qed
  qed
qed

text \<open>
  At an instance on two load balancers: \<open>lb-a\<close> is satisfied in the first cycle and is
  not asked again, \<open>lb-b\<close> is asked in both cycles; one line is printed, for \<open>lb-b\<close>.
\<close>

theorem wait_never_repolls_witness:
  "unique_lb_names (fixed_provider [inst_db] [lb_a, lb_b] draining_health ticking_clock)
       (fresh_world ''10.3.104.56'')
   \<and> fst (wait_out_lbs (Suc (Suc 0))
         (fixed_provider [inst_db] [lb_a, lb_b] draining_health ticking_clock) ctx 10
         (fresh_world ''10.3.104.56'')) = Some (Inr ())
   \<and> map query_lb (health_queries (snd (wait_out_lbs (Suc (Suc 0))
         (fixed_provider [inst_db] [lb_a, lb_b] draining_health ticking_clock) ctx 10
         (fresh_world ''10.3.104.56'')))) = [''lb-a'', ''lb-b'', ''lb-b'']
   \<and> map line_lbs (stdout (snd (wait_out_lbs (Suc (Suc 0))
         (fixed_provider [inst_db] [lb_a, lb_b] draining_health ticking_clock) ctx 10
         (fresh_world ''10.3.104.56'')))) = [[''lb-b'']]"
proof -
  let ?P = "fixed_provider [inst_db] [lb_a, lb_b] draining_health ticking_clock"
  let ?w = "fresh_world ''10.3.104.56''"
  have u: "unique_lb_names ?P ?w"
    by (simp add: unique_lb_names_def world_eval lb_a_def lb_b_def)
  have run: "wait_xx_lbs (Suc (Suc 0)) ?P ctx 10 out_of_service ?w
      = (fst (wait_out_lbs (Suc (Suc 0)) ?P ctx 10 ?w),
         snd (wait_out_lbs (Suc (Suc 0)) ?P ctx 10 ?w))"
    by (simp add: wait_out_lbs_def)
  have e1: "fst (wait_out_lbs (Suc (Suc 0)) ?P ctx 10 ?w) = Some (Inr ())"
    by (simp add: world_eval inventory_eval wait_eval Let_def)
  have e2: "map query_lb (health_queries (snd (wait_out_lbs (Suc (Suc 0)) ?P ctx 10 ?w)))
      = [''lb-a'', ''lb-b'', ''lb-b'']"
    by (simp add: world_eval inventory_eval wait_eval Let_def)
  have e3: "map line_lbs (stdout (snd (wait_out_lbs (Suc (Suc 0)) ?P ctx 10 ?w))) = [[''lb-b'']]"
    by (simp add: world_eval inventory_eval wait_eval Let_def)
  from wait_never_repolls [OF run u] u e1 e2 e3
  show ?thesis
    by simp
qed

end
